theory Spec2Isabelle
  imports Main "HOL-Library.Word"
begin

section \<open>EOF v1 container validation (packages/evm/src/eof.ts)\<close>

text \<open>
  A shallow embedding of \<^verbatim>\<open>isEOFCode\<close>, \<^verbatim>\<open>getEOFVersion\<close>,
  \<^verbatim>\<open>validateCode\<close> and \<^verbatim>\<open>checkOpcodes\<close>.

  \<^item> A \<^verbatim>\<open>Buffer\<close> is a list of bytes; an element read from it is a JavaScript
    number, here a \<open>nat\<close> below 256.
  \<^item> \<^verbatim>\<open>code[i]\<close> out of range is \<^verbatim>\<open>undefined\<close>: \<open>None\<close>.
  \<^item> \<^verbatim>\<open>readUint8\<close>, \<^verbatim>\<open>readUint16BE\<close> and \<^verbatim>\<open>readInt16BE\<close> throw a
    \<^verbatim>\<open>RangeError\<close> out of range: results are \<open>error + 'a\<close>.
  \<^item> The keys of \<^verbatim>\<open>handlers\<close> (module \<^verbatim>\<open>./opcodes\<close>) are a parameter: a set of numbers.
  \<^item> All numbers that occur are integers far below \<open>2^53\<close>, so the doubles of
    JavaScript are exact: positions are \<open>nat\<close>, jump targets are \<open>int\<close>.
\<close>

subsection \<open>Buffers\<close>

type_synonym buffer = "8 word list"

datatype error = RangeError

text \<open>\<^verbatim>\<open>code[i]\<close>\<close>

definition byte_at :: "buffer \<Rightarrow> nat \<Rightarrow> nat option" where
  "byte_at code i = (if i < length code then Some (unat (code ! i)) else None)"

text \<open>\<^verbatim>\<open>code.readUint8(offset)\<close>\<close>

definition readUint8 :: "buffer \<Rightarrow> nat \<Rightarrow> error + nat" where
  "readUint8 code offset =
     (case byte_at code offset of
        None \<Rightarrow> Inl RangeError
      | Some val \<Rightarrow> Inr val)"

text \<open>\<^verbatim>\<open>code.readUint16BE(offset)\<close>: \<^verbatim>\<open>first * 2 ** 8 + last\<close>\<close>

definition readUint16BE :: "buffer \<Rightarrow> nat \<Rightarrow> error + nat" where
  "readUint16BE code offset =
     (case byte_at code offset of
        None \<Rightarrow> Inl RangeError
      | Some first_byte \<Rightarrow>
          (case byte_at code (offset + 1) of
             None \<Rightarrow> Inl RangeError
           | Some last_byte \<Rightarrow> Inr (first_byte * 2 ^ 8 + last_byte)))"

text \<open>\<^verbatim>\<open>code.readInt16BE(offset)\<close>: the same two bytes, read as two's complement\<close>

definition readInt16BE :: "buffer \<Rightarrow> nat \<Rightarrow> error + int" where
  "readInt16BE code offset =
     (case byte_at code offset of
        None \<Rightarrow> Inl RangeError
      | Some first_byte \<Rightarrow>
          (case byte_at code (offset + 1) of
             None \<Rightarrow> Inl RangeError
           | Some last_byte \<Rightarrow>
               (let val = int first_byte * 2 ^ 8 + int last_byte
                in Inr (if val < 2 ^ 15 then val else val - 2 ^ 16))))"

subsection \<open>Constants\<close>

definition MAGIC :: buffer where
  "MAGIC = [0xEF, 0x00]"

definition KIND_TYPE :: nat where "KIND_TYPE = 1"
definition KIND_CODE :: nat where "KIND_CODE = 2"
definition KIND_DATA :: nat where "KIND_DATA = 3"
definition TERMINATOR :: nat where "TERMINATOR = 0"

subsection \<open>Magic and version\<close>

text \<open>\<^verbatim>\<open>code.slice(0, 2).equals(MAGIC)\<close>\<close>

definition isEOFCode :: "buffer \<Rightarrow> bool" where
  "isEOFCode code = (take 2 code = MAGIC)"

text \<open>\<^verbatim>\<open>_getEOFVersion\<close>: \<^verbatim>\<open>code[2]\<close>, \<^verbatim>\<open>undefined\<close> for a buffer of two bytes\<close>

definition internal_getEOFVersion :: "buffer \<Rightarrow> nat option" where
  "internal_getEOFVersion code = byte_at code 2"

definition getEOFVersion :: "buffer \<Rightarrow> nat option" where
  "getEOFVersion code =
     (if \<not> isEOFCode code then Some 0 else internal_getEOFVersion code)"

subsection \<open>The opcode pass: \<^verbatim>\<open>checkOpcodes\<close>\<close>

text \<open>
  The mutable locals of the pass: the cursor and the two sets. A loop
  \<^verbatim>\<open>for (immediate = pos; immediate < finalPos; immediate++) immediates.add(immediate)\<close>
  adds the numbers from \<open>pos\<close> up to, not including, \<open>finalPos\<close>.
\<close>

record scan_state =
  pos :: nat
  rjumpdests :: "int set"
  immediates :: "int set"

text \<open>
  The allowed opcodes: the keys of \<^verbatim>\<open>handlers\<close>, with \<open>0xfe\<close> added and
  \<open>0x58\<close>, \<open>0xff\<close>, \<open>0xf2\<close> deleted.
\<close>

definition opcodes :: "nat set \<Rightarrow> nat set" where
  "opcodes handlers = insert 0xfe handlers - {0x58} - {0xff} - {0xf2}"

text \<open>How a piece of the pass ends: it throws, it returns false, or it goes on.\<close>

datatype 'a outcome = Throws error | ReturnsFalse | Proceeds 'a

text \<open>
  The PUSH block of the loop body (lines 203-214), entered with the cursor already
  past the opcode.
\<close>

definition push_block :: "buffer \<Rightarrow> nat \<Rightarrow> scan_state \<Rightarrow> scan_state outcome" where
  "push_block code opcode st =
     (if 0x60 \<le> opcode \<and> opcode \<le> 0x7f then
        (let finalPos = pos st + opcode - 0x5f;
             imm = immediates st \<union> {int (pos st) ..< int finalPos}
         in if int finalPos > int (length code) - 1 then ReturnsFalse
            else Proceeds (st\<lparr>pos := finalPos, immediates := imm\<rparr>))
      else Proceeds st)"

text \<open>
  The loop over the jump table of RJUMPV (lines 250-257): \<open>None\<close> is
  \<^verbatim>\<open>return false\<close>, otherwise the extended set of jump destinations.
\<close>

function jumptable :: "buffer \<Rightarrow> nat \<Rightarrow> nat \<Rightarrow> int set \<Rightarrow> (int set) outcome" where
  "jumptable code finalPos jumptablePosition rj =
     (if jumptablePosition < finalPos then
        (case readInt16BE code jumptablePosition of
           Inl e \<Rightarrow> Throws e
         | Inr off \<Rightarrow>
             (let target = off + int finalPos
              in if target > int (length code) - 1 \<or> target < 0 then ReturnsFalse
                 else jumptable code finalPos (jumptablePosition + 2) (insert target rj)))
      else Proceeds rj)"
  by pat_completeness auto
termination
  by (relation "measure (\<lambda>(code, finalPos, jumptablePosition, rj). finalPos - jumptablePosition)")
     auto

declare jumptable.simps [simp del]

text \<open>
  What one turn of the \<^verbatim>\<open>while\<close> loop does to the loop: it leaves the function
  (throwing or returning false), it goes round again, or it leaves the loop. The last
  happens when RJUMPV is the final byte: \<^verbatim>\<open>code[pos]\<close> is \<^verbatim>\<open>undefined\<close>, the table size
  and with it the cursor become \<^verbatim>\<open>NaN\<close>, no comparison with \<^verbatim>\<open>NaN\<close> holds, and
  \<^verbatim>\<open>pos < code.length\<close> fails at the next test.
\<close>

datatype turn = Throw error | ReturnFalse | Continue scan_state | Break scan_state

text \<open>The RJUMP, RJUMPI and RJUMPV checks of the loop body (lines 215-259).\<close>

definition rjump_checks :: "buffer \<Rightarrow> nat \<Rightarrow> scan_state \<Rightarrow> turn" where
  "rjump_checks code opcode st =
     (if opcode = 0x5c \<or> opcode = 0x5d then
        (let imm = insert (int (pos st + 1)) (insert (int (pos st)) (immediates st))
         in if int (pos st) + 2 > int (length code) - 1 then ReturnFalse
            else
              (case readInt16BE code (pos st) of
                 Inl e \<Rightarrow> Throw e
               | Inr off \<Rightarrow>
                   (let target = off + int (pos st) + 2;
                        rj = insert target (rjumpdests st)
                    in if target > int (length code) - 1 \<or> target < 0 then ReturnFalse
                       else Continue \<lparr>pos = pos st + 2, rjumpdests = rj, immediates = imm\<rparr>)))
      else if opcode = 0x5e then
        (case byte_at code (pos st) of
           None \<Rightarrow> Break st
         | Some tableSize \<Rightarrow>
             if tableSize = 0 then ReturnFalse
             else
               (let jumptableSize = tableSize * 2
                in if int (pos st) + int jumptableSize + 1 > int (length code) - 1
                   then ReturnFalse
                   else
                     (let finalPos = pos st + 1 + jumptableSize;
                          imm = immediates st \<union> {int (pos st) ..< int finalPos}
                      in case jumptable code finalPos (pos st + 1) (rjumpdests st) of
                           Throws e \<Rightarrow> Throw e
                         | ReturnsFalse \<Rightarrow> ReturnFalse
                         | Proceeds rj \<Rightarrow>
                             Continue \<lparr>pos = finalPos, rjumpdests = rj, immediates = imm\<rparr>)))
      else Continue st)"

text \<open>
  The body of the \<^verbatim>\<open>while\<close> loop (lines 197-259). \<^verbatim>\<open>opcodes.has(undefined)\<close> is
  false.
\<close>

definition loop_body :: "nat set \<Rightarrow> buffer \<Rightarrow> scan_state \<Rightarrow> turn" where
  "loop_body handlers code st =
     (case byte_at code (pos st) of
        None \<Rightarrow> ReturnFalse
      | Some opcode \<Rightarrow>
          if opcode \<notin> opcodes handlers then ReturnFalse
          else
            (case push_block code opcode (st\<lparr>pos := pos st + 1\<rparr>) of
               Throws e \<Rightarrow> Throw e
             | ReturnsFalse \<Rightarrow> ReturnFalse
             | Proceeds st' \<Rightarrow> rjump_checks code opcode st'))"

text \<open>
  The \<^verbatim>\<open>while (pos < code.length)\<close> loop (lines 196-260). It ends: every turn
  that goes round again has moved the cursor forward.
\<close>

function scan_loop :: "nat set \<Rightarrow> buffer \<Rightarrow> scan_state \<Rightarrow> scan_state outcome" where
  "scan_loop handlers code st =
     (if pos st < length code then
        (case loop_body handlers code st of
           Throw e \<Rightarrow> Throws e
         | ReturnFalse \<Rightarrow> ReturnsFalse
         | Continue st' \<Rightarrow> scan_loop handlers code st'
         | Break st' \<Rightarrow> Proceeds st')
      else Proceeds st)"
  by pat_completeness auto
termination
proof (relation "measure (\<lambda>(handlers, code, st). length code - pos st)")
  show "wf (measure (\<lambda>(handlers, code, st). length code - pos st))"
    by simp
next
  fix handlers :: "nat set" and code :: buffer and st st' :: scan_state
  assume inside: "pos st < length code"
    and again: "loop_body handlers code st = Continue st'"
  from again obtain opcode st1 where
    "push_block code opcode (st\<lparr>pos := pos st + 1\<rparr>) = Proceeds st1"
    and "rjump_checks code opcode st1 = Continue st'"
    by (auto simp: loop_body_def split: option.splits if_splits outcome.splits)
  then have "pos st + 1 \<le> pos st1" and "pos st1 \<le> pos st'"
    by (auto simp: push_block_def rjump_checks_def Let_def
        split: if_splits sum.splits option.splits outcome.splits)
  with inside
  show "((handlers, code, st'), (handlers, code, st))
          \<in> measure (\<lambda>(handlers, code, st). length code - pos st)"
    by simp
qed

declare scan_loop.simps [simp del]

definition terminatingOpcodes :: "nat set" where
  "terminatingOpcodes = {0x00, 0xf3, 0xfd, 0xfe, 0xff}"

text \<open>The state in which the loop starts: \<^verbatim>\<open>pos = 0\<close> and two empty sets.\<close>

definition initial_state :: scan_state where
  "initial_state = \<lparr>pos = 0, rjumpdests = {}, immediates = {}\<rparr>"

text \<open>
  \<^verbatim>\<open>checkOpcodes\<close> (lines 184-273). On the empty buffer \<^verbatim>\<open>code[code.length - 1]\<close> is
  \<^verbatim>\<open>code[-1]\<close>, which is \<^verbatim>\<open>undefined\<close> as is \<open>byte_at [] 0\<close>; the set of
  terminating opcodes does not have it. The final \<^verbatim>\<open>for\<close> loop returns false as soon
  as a jump destination is an immediate.
\<close>

definition checkOpcodes :: "nat set \<Rightarrow> buffer \<Rightarrow> error + bool" where
  "checkOpcodes handlers code =
     (case scan_loop handlers code initial_state of
        Throws e \<Rightarrow> Inl e
      | ReturnsFalse \<Rightarrow> Inr False
      | Proceeds st \<Rightarrow>
          (case byte_at code (length code - 1) of
             None \<Rightarrow> Inr False
           | Some final \<Rightarrow>
               if final \<notin> terminatingOpcodes then Inr False
               else if rjumpdests st \<inter> immediates st \<noteq> {} then Inr False
               else Inr True))"

subsection \<open>Header, type section and body length: \<^verbatim>\<open>validateCode\<close>\<close>

text \<open>The loop over the type section (lines 142-158).\<close>

function type_sections :: "buffer \<Rightarrow> nat \<Rightarrow> nat \<Rightarrow> nat \<Rightarrow> nat outcome" where
  "type_sections code numTypeSections typeSection currentBodyPos =
     (if typeSection < numTypeSections then
        (case readUint8 code currentBodyPos of
           Inl e \<Rightarrow> Throws e
         | Inr inputs \<Rightarrow>
             if inputs > 0x7f then ReturnsFalse
             else
               (case readUint8 code (currentBodyPos + 1) of
                  Inl e \<Rightarrow> Throws e
                | Inr outputs \<Rightarrow>
                    if outputs > 0x7f then ReturnsFalse
                    else
                      (case readUint16BE code (currentBodyPos + 2) of
                         Inl e \<Rightarrow> Throws e
                       | Inr maxStackHeight \<Rightarrow>
                           if maxStackHeight > 1023 then ReturnsFalse
                           else type_sections code numTypeSections (typeSection + 1)
                                  (currentBodyPos + 4))))
      else Proceeds currentBodyPos)"
  by pat_completeness auto
termination
  by (relation "measure (\<lambda>(code, numTypeSections, typeSection, currentBodyPos).
        numTypeSections - typeSection)") auto

declare type_sections.simps [simp del]

text \<open>The loop that adds up the code section sizes (lines 163-165).\<close>

function code_sizes :: "buffer \<Rightarrow> nat \<Rightarrow> nat \<Rightarrow> nat \<Rightarrow> error + nat" where
  "code_sizes code numCodeSections p codeSize =
     (if p < 9 + 2 * numCodeSections then
        (case readUint16BE code p of
           Inl e \<Rightarrow> Inl e
         | Inr sectionSize \<Rightarrow> code_sizes code numCodeSections (p + 2) (codeSize + sectionSize))
      else Inr codeSize)"
  by pat_completeness auto
termination
  by (relation "measure (\<lambda>(code, numCodeSections, p, codeSize). 9 + 2 * numCodeSections - p)")
     auto

declare code_sizes.simps [simp del]

text \<open>
  Lines 50-174 of \<^verbatim>\<open>validateCode\<close>: everything between the magic and the opcode
  pass. \<open>Inr False\<close> is a \<^verbatim>\<open>return false\<close>, \<open>Inr True\<close> is control reaching
  line 176. After \<^verbatim>\<open>typeSectionSize % 4 !== 0\<close> has been excluded, the division
  \<^verbatim>\<open>typeSectionSize / 4\<close> is exact.
\<close>

definition validateCode_layout :: "buffer \<Rightarrow> error + bool" where
  "validateCode_layout code =
     (if length code \<le> 2 then Inr False
      else if internal_getEOFVersion code \<noteq> Some 0 then Inr False
      else if length code < 15 then Inr False
      else if byte_at code 3 \<noteq> Some KIND_TYPE then Inr False
      else
        (case readUint16BE code 4 of
           Inl e \<Rightarrow> Inl e
         | Inr typeSectionSize \<Rightarrow>
        if typeSectionSize mod 4 \<noteq> 0 then Inr False
        else if typeSectionSize < 4 then Inr False
        else if byte_at code 6 \<noteq> Some KIND_CODE then Inr False
        else
        (case readUint16BE code 7 of
           Inl e \<Rightarrow> Inl e
         | Inr numCodeSections \<Rightarrow>
        if numCodeSections > 1024 \<or> numCodeSections = 0 then Inr False
        else if typeSectionSize div 4 \<noteq> numCodeSections then Inr False
        else
        (let dataSectionMarkerIndex = 9 + 2 * numCodeSections
         in
        if length code < dataSectionMarkerIndex then Inr False
        else if byte_at code dataSectionMarkerIndex \<noteq> Some KIND_DATA then Inr False
        else
        (let bodyStartPos = dataSectionMarkerIndex + 4
         in
        if length code < bodyStartPos then Inr False
        else if byte_at code (dataSectionMarkerIndex + 3) \<noteq> Some TERMINATOR then Inr False
        else
        (case type_sections code (typeSectionSize div 4) 0 bodyStartPos of
           Throws e \<Rightarrow> Inl e
         | ReturnsFalse \<Rightarrow> Inr False
         | Proceeds currentBodyPos \<Rightarrow>
        (case code_sizes code numCodeSections 9 0 of
           Inl e \<Rightarrow> Inl e
         | Inr codeSize \<Rightarrow>
        (case readUint16BE code (dataSectionMarkerIndex + 1) of
           Inl e \<Rightarrow> Inl e
         | Inr dataSectionSize \<Rightarrow>
        if int (currentBodyPos + codeSize + dataSectionSize) \<noteq> int (length code) - 1
        then Inr False
        else Inr True))))))))"

text \<open>
  \<^verbatim>\<open>validateCode\<close> (lines 44-182): legacy code is accepted at once; otherwise the
  checks above, then the opcode pass.
\<close>

definition validateCode :: "nat set \<Rightarrow> buffer \<Rightarrow> error + bool" where
  "validateCode handlers code =
     (if \<not> isEOFCode code then Inr True
      else
        (case validateCode_layout code of
           Inl e \<Rightarrow> Inl e
         | Inr laid_out \<Rightarrow>
             if \<not> laid_out then Inr False
             else
               (case checkOpcodes handlers code of
                  Inl e \<Rightarrow> Inl e
                | Inr valid \<Rightarrow> if \<not> valid then Inr False else Inr True)))"

subsection \<open>The pass, turn by turn\<close>

text \<open>
  The state of the loop after \<open>n\<close> turns that all went round again, started in \<open>st\<close>;
  \<open>None\<close> when the loop has ended before. The byte at the cursor of such a state is
  the next the loop reads as an opcode.
\<close>

fun turns :: "nat set \<Rightarrow> buffer \<Rightarrow> nat \<Rightarrow> scan_state \<Rightarrow> scan_state option" where
  "turns handlers code 0 st = Some st"
| "turns handlers code (Suc n) st =
     (if pos st < length code then
        (case loop_body handlers code st of
           Continue st' \<Rightarrow> turns handlers code n st'
         | Throw e \<Rightarrow> None
         | ReturnFalse \<Rightarrow> None
         | Break st' \<Rightarrow> None)
      else None)"

subsection \<open>The header fields, as the format lays them out\<close>

text \<open>
  The big-endian 16-bit fields of the EOF1 header at their offsets: \<open>4\<close> the type
  section size, \<open>7\<close> the number of code sections \<open>N\<close>, \<open>9 + 2 i\<close> the size of code
  section \<open>i\<close>, \<open>10 + 2 N\<close> the data section size; the header is \<open>13 + 2 N\<close> bytes.
  They are used of buffers that hold the whole header.
\<close>

definition u16_at :: "buffer \<Rightarrow> nat \<Rightarrow> nat" where
  "u16_at code i = unat (code ! i) * 256 + unat (code ! (i + 1))"

definition type_section_size :: "buffer \<Rightarrow> nat" where
  "type_section_size code = u16_at code 4"

definition num_code_sections :: "buffer \<Rightarrow> nat" where
  "num_code_sections code = u16_at code 7"

definition code_section_sizes :: "buffer \<Rightarrow> nat list" where
  "code_section_sizes code = map (\<lambda>i. u16_at code (9 + 2 * i)) [0 ..< num_code_sections code]"

definition data_section_size :: "buffer \<Rightarrow> nat" where
  "data_section_size code = u16_at code (10 + 2 * num_code_sections code)"

definition header_length :: "buffer \<Rightarrow> nat" where
  "header_length code = 13 + 2 * num_code_sections code"

subsection \<open>Jump targets and operand bytes, read from the bytes\<close>







subsection \<open>Opcode tables and containers used below\<close>

text \<open>An opcode table in which every byte value has a handler.\<close>

definition every_byte_defined :: "nat set" where
  "every_byte_defined = {0 ..< 256}"

text \<open>An opcode table in which the byte values below \<open>0xEF\<close> have a handler.\<close>

definition below_ef_defined :: "nat set" where
  "below_ef_defined = {0 ..< 0xEF}"

text \<open>
  The minimum EOF1 container of the specification: header, one type entry, one
  \<^verbatim>\<open>STOP\<close>, no data; 20 bytes.
\<close>

definition minimum_eof1 :: buffer where
  "minimum_eof1 =
     [0xEF, 0x00, 0x01,  0x01, 0x00, 0x04,  0x02, 0x00, 0x01, 0x00, 0x01,  0x03, 0x00, 0x00,
      0x00,  0x00, 0x00, 0x00, 0x00,  0x00]"

text \<open>
  The same container with version byte \<open>0\<close> and one more byte after the declared
  body; 21 bytes.
\<close>

definition version0_one_extra :: buffer where
  "version0_one_extra =
     [0xEF, 0x00, 0x00,  0x01, 0x00, 0x04,  0x02, 0x00, 0x01, 0x00, 0x01,  0x03, 0x00, 0x00,
      0x00,  0x00, 0x00, 0x00, 0x00,  0x00,  0x00]"

text \<open>A version-0 header announcing one type entry, and nothing after it; 15 bytes.\<close>

definition header_only :: buffer where
  "header_only =
     [0xEF, 0x00, 0x00,  0x01, 0x00, 0x04,  0x02, 0x00, 0x01, 0x00, 0x00,  0x03, 0x00, 0x00,
      0x00]"

text \<open>
  A version-0 header announcing two type entries, followed by one entry and a
  single byte of the second; 22 bytes.
\<close>

definition second_entry_cut :: buffer where
  "second_entry_cut =
     [0xEF, 0x00, 0x00,  0x01, 0x00, 0x08,  0x02, 0x00, 0x02, 0x00, 0x01, 0x00, 0x01,
      0x03, 0x00, 0x00,  0x00,  0x00, 0x00, 0x00, 0x00,  0x00]"

text \<open>Legacy code: \<^verbatim>\<open>PUSH1 0 PUSH1 0 RETURN\<close>.\<close>

definition legacy_return :: buffer where
  "legacy_return = [0x60, 0x00, 0x60, 0x00, 0xF3]"

text \<open>Legacy code whose third byte is zero.\<close>

definition legacy_zero_third :: buffer where
  "legacy_zero_third = [0x60, 0x00, 0x00]"

text \<open>
  A version-0 container whose code section is \<^verbatim>\<open>PUSH1 01, RJUMP +1, 00, 00\<close>,
  with one more byte after the declared body; 27 bytes. The code section starts at
  offset 19.
\<close>

definition push_rjump :: buffer where
  "push_rjump =
     [0xEF, 0x00, 0x00,  0x01, 0x00, 0x04,  0x02, 0x00, 0x01, 0x00, 0x07,  0x03, 0x00, 0x00,
      0x00,  0x00, 0x00, 0x00, 0x00,  0x60, 0x01, 0x5C, 0x00, 0x01, 0x00, 0x00,  0x00]"

text \<open>
  Three version-0 containers that pass lines 50-174 and end with an immediate: the
  operand of a \<^verbatim>\<open>PUSH1\<close>, the offset of an \<^verbatim>\<open>RJUMP\<close>, and the one-entry table of
  an \<^verbatim>\<open>RJUMPV\<close>. In each the opcode is at offset 19.
\<close>

definition push_at_end :: buffer where
  "push_at_end =
     [0xEF, 0x00, 0x00,  0x01, 0x00, 0x04,  0x02, 0x00, 0x01, 0x00, 0x01,  0x03, 0x00, 0x00,
      0x00,  0x00, 0x00, 0x00, 0x00,  0x60, 0x00]"

definition rjump_at_end :: buffer where
  "rjump_at_end =
     [0xEF, 0x00, 0x00,  0x01, 0x00, 0x04,  0x02, 0x00, 0x01, 0x00, 0x02,  0x03, 0x00, 0x00,
      0x00,  0x00, 0x00, 0x00, 0x00,  0x5C, 0x00, 0x00]"

definition rjumpv_at_end :: buffer where
  "rjumpv_at_end =
     [0xEF, 0x00, 0x00,  0x01, 0x00, 0x04,  0x02, 0x00, 0x01, 0x00, 0x03,  0x03, 0x00, 0x00,
      0x00,  0x00, 0x00, 0x00, 0x00,  0x5E, 0x01, 0x00, 0x00]"

text \<open>The container \<open>version0_one_extra\<close> with \<^verbatim>\<open>SELFDESTRUCT\<close> as its last byte.\<close>

definition selfdestruct_last :: buffer where
  "selfdestruct_last =
     [0xEF, 0x00, 0x00,  0x01, 0x00, 0x04,  0x02, 0x00, 0x01, 0x00, 0x01,  0x03, 0x00, 0x00,
      0x00,  0x00, 0x00, 0x00, 0x00,  0x00,  0xFF]"




subsection \<open>Evaluation\<close>

lemmas buffer_reads =
  byte_at_def readUint8_def readUint16BE_def readInt16BE_def internal_getEOFVersion_def
  KIND_TYPE_def KIND_CODE_def KIND_DATA_def TERMINATOR_def Let_def

lemmas magic_eval = isEOFCode_def MAGIC_def

lemmas layout_eval =
  validateCode_layout_def type_sections.simps code_sizes.simps

lemmas pass_eval =
  checkOpcodes_def initial_state_def scan_loop.simps loop_body_def opcodes_def push_block_def
  rjump_checks_def jumptable.simps terminatingOpcodes_def every_byte_defined_def
  below_ef_defined_def

lemmas header_eval =
  u16_at_def type_section_size_def num_code_sections_def code_section_sizes_def
  data_section_size_def header_length_def


lemma turns_numeral:
  "turns handlers code (numeral k) st =
     (if pos st < length code then
        (case loop_body handlers code st of
           Continue st' \<Rightarrow> turns handlers code (pred_numeral k) st'
         | Throw e \<Rightarrow> None
         | ReturnFalse \<Rightarrow> None
         | Break st' \<Rightarrow> None)
      else None)"
  by (simp add: numeral_eq_Suc)

section \<open>Properties of the model\<close>

subsection \<open>The magic\<close>

lemma isEOFCode_iff: "isEOFCode code \<longleftrightarrow> (\<exists>rest. code = 0xEF # 0x00 # rest)"
proof
  assume "isEOFCode code"
  then have "take 2 code = [0xEF, 0x00]"
    by (simp add: isEOFCode_def MAGIC_def)
  then show "\<exists>rest. code = 0xEF # 0x00 # rest"
    by (cases code; cases "tl code") auto
next
  assume "\<exists>rest. code = 0xEF # 0x00 # rest"
  then show "isEOFCode code"
    by (auto simp: isEOFCode_def MAGIC_def)
qed

subsection \<open>What acceptance of EOF code goes through\<close>

lemma validateCode_accepted:
  "isEOFCode code \<Longrightarrow> validateCode handlers code = Inr True \<Longrightarrow>
   validateCode_layout code = Inr True \<and> checkOpcodes handlers code = Inr True"
  by (auto simp: validateCode_def split: sum.splits if_splits)

lemma validateCode_after_layout:
  "isEOFCode code \<Longrightarrow> validateCode_layout code = Inr True \<Longrightarrow>
   validateCode handlers code = checkOpcodes handlers code"
  by (auto simp: validateCode_def split: sum.splits)

lemma validateCode_cases:
  "isEOFCode code \<Longrightarrow> checkOpcodes handlers code \<noteq> Inr True \<Longrightarrow> validateCode handlers code \<noteq> Inr True"
  by (auto simp: validateCode_def split: sum.splits if_splits)

subsection \<open>A turn that returns false ends the pass\<close>

lemma turns_scan_loop:
  "turns handlers code n st0 = Some st \<Longrightarrow>
   scan_loop handlers code st0 = scan_loop handlers code st"
proof (induction n arbitrary: st0)
  case 0
  then show ?case by simp
next
  case (Suc n)
  from Suc.prems obtain st1 where
    a: "pos st0 < length code" and b: "loop_body handlers code st0 = Continue st1"
    and c: "turns handlers code n st1 = Some st"
    by (auto split: if_splits turn.splits)
  from a b have "scan_loop handlers code st0 = scan_loop handlers code st1"
    by (simp add: scan_loop.simps [of handlers code st0])
  with Suc.IH [OF c] show ?case by simp
qed

lemma scan_loop_ReturnFalse:
  "pos st < length code \<Longrightarrow> loop_body handlers code st = ReturnFalse \<Longrightarrow>
   scan_loop handlers code st = ReturnsFalse"
  by (simp add: scan_loop.simps [of handlers code st])

lemma turn_ReturnFalse_rejects:
  assumes "turns handlers code n initial_state = Some st"
    and "pos st < length code" and "loop_body handlers code st = ReturnFalse"
  shows "checkOpcodes handlers code = Inr False"
proof -
  from assms(2,3) have "scan_loop handlers code st = ReturnsFalse"
    by (rule scan_loop_ReturnFalse)
  with turns_scan_loop [OF assms(1)] show ?thesis
    by (simp add: checkOpcodes_def)
qed

lemma selfdestruct_not_allowed: "255 \<notin> opcodes handlers"
  by (simp add: opcodes_def)

subsection \<open>Every recorded jump destination is inside the buffer\<close>






subsection \<open>The two sets only grow\<close>






subsection \<open>The loop reads the last byte as an opcode\<close>

text \<open>
  A turn that goes round again leaves the cursor inside the buffer, unless it read
  a one-byte opcode at the last offset; the loop is left through \<^verbatim>\<open>NaN\<close> only at an
  \<^verbatim>\<open>RJUMPV\<close> in the last byte. So the last byte of a buffer on which the loop ends
  normally is an allowed opcode or \<open>0x5e\<close>, and \<open>0xff\<close> is neither: the entry
  \<open>0xff\<close> of \<open>terminatingOpcodes\<close> is never what lets a container through.
\<close>

lemma push_block_bound:
  "push_block code opcode st = Proceeds st' \<Longrightarrow>
   (0x60 \<le> opcode \<and> opcode \<le> 0x7f \<and> pos st' < length code) \<or>
   (\<not> (0x60 \<le> opcode \<and> opcode \<le> 0x7f) \<and> st' = st)"
  by (auto simp: push_block_def Let_def split: if_splits)

lemma rjump_checks_Continue_bound:
  "rjump_checks code opcode st = Continue st' \<Longrightarrow>
   pos st' < length code \<or> st' = st"
  by (auto simp: rjump_checks_def Let_def
      split: if_splits sum.splits option.splits outcome.splits)

lemma rjump_checks_push:
  "0x60 \<le> opcode \<Longrightarrow> rjump_checks code opcode st = Continue st"
  by (simp add: rjump_checks_def)

lemma loop_body_Continue_bound:
  assumes "loop_body handlers code st = Continue st'"
  shows "pos st' < length code \<or>
         (pos st' = pos st + 1 \<and> (\<exists>opcode. byte_at code (pos st) = Some opcode \<and>
            opcode \<in> opcodes handlers))"
proof -
  from assms obtain opcode st1 where
    op: "byte_at code (pos st) = Some opcode" "opcode \<in> opcodes handlers"
    and a: "push_block code opcode (st\<lparr>pos := pos st + 1\<rparr>) = Proceeds st1"
    and b: "rjump_checks code opcode st1 = Continue st'"
    by (auto simp: loop_body_def split: option.splits if_splits outcome.splits)
  from push_block_bound [OF a] rjump_checks_Continue_bound [OF b] op b
  show ?thesis
    by (auto simp: rjump_checks_push)
qed

lemma loop_body_Break:
  assumes "loop_body handlers code st = Break st'"
  shows "byte_at code (pos st) = Some 0x5e \<and> length code \<le> pos st + 1"
proof -
  from assms obtain opcode st1 where
    op: "byte_at code (pos st) = Some opcode"
    and a: "push_block code opcode (st\<lparr>pos := pos st + 1\<rparr>) = Proceeds st1"
    and b: "rjump_checks code opcode st1 = Break st'"
    by (auto simp: loop_body_def split: option.splits if_splits outcome.splits)
  from b have c: "opcode = 0x5e" "byte_at code (pos st1) = None"
    by (auto simp: rjump_checks_def Let_def
        split: if_splits sum.splits option.splits outcome.splits)
  with a have "st1 = st\<lparr>pos := pos st + 1\<rparr>"
    by (simp add: push_block_def)
  with c op show ?thesis
    by (auto simp: byte_at_def split: if_splits)
qed

lemma scan_loop_final_byte:
  "scan_loop handlers code st = Proceeds fin \<Longrightarrow> pos st < length code \<Longrightarrow>
   \<exists>final. byte_at code (length code - 1) = Some final \<and>
     (final \<in> opcodes handlers \<or> final = 0x5e)"
proof (induction handlers code st rule: scan_loop.induct)
  case (1 handlers code st)
  note p = \<open>pos st < length code\<close>
  show ?case
  proof (cases "loop_body handlers code st")
    case (Throw e)
    with p "1.prems"(1) show ?thesis
      by (simp add: scan_loop.simps [of handlers code st])
  next
    case ReturnFalse
    with p "1.prems"(1) show ?thesis
      by (simp add: scan_loop.simps [of handlers code st])
  next
    case (Continue st1)
    with p "1.prems"(1) have rec: "scan_loop handlers code st1 = Proceeds fin"
      by (simp add: scan_loop.simps [of handlers code st])
    show ?thesis
    proof (cases "pos st1 < length code")
      case True
      from "1.IH" [OF p Continue rec True] show ?thesis .
    next
      case False
      with loop_body_Continue_bound [OF Continue] obtain opcode where
        "pos st1 = pos st + 1" "byte_at code (pos st) = Some opcode"
        "opcode \<in> opcodes handlers"
        by blast
      moreover with False p have "pos st = length code - 1" by simp
      ultimately show ?thesis by auto
    qed
  next
    case (Break st1)
    from loop_body_Break [OF Break] p
    have "byte_at code (pos st) = Some 0x5e" "pos st = length code - 1"
      by auto
    then show ?thesis by auto
  qed
qed

lemma accepted_final_byte:
  assumes "isEOFCode code" and "validateCode handlers code = Inr True"
  shows "\<exists>final. byte_at code (length code - 1) = Some final \<and>
           final \<in> {0x00, 0xf3, 0xfd, 0xfe}"
proof -
  from assms have ok: "checkOpcodes handlers code = Inr True"
    using validateCode_accepted by blast
  then obtain fin final where fin: "scan_loop handlers code initial_state = Proceeds fin"
    and final: "byte_at code (length code - 1) = Some final" "final \<in> terminatingOpcodes"
    by (auto simp: checkOpcodes_def split: outcome.splits option.splits if_splits)
  from assms(1) have "pos initial_state < length code"
    by (auto simp: isEOFCode_iff initial_state_def)
  from scan_loop_final_byte [OF fin this] final
  have "final \<in> opcodes handlers \<or> final = 0x5e"
    by auto
  with final show ?thesis
    by (auto simp: terminatingOpcodes_def opcodes_def)
qed

lemma selfdestruct_last_is_rejected:
  "validateCode_layout selfdestruct_last = Inr True \<and>
   validateCode handlers selfdestruct_last = Inr False"
proof -
  have a: "isEOFCode selfdestruct_last"
    by (simp add: magic_eval selfdestruct_last_def)
  have b: "validateCode_layout selfdestruct_last = Inr True"
    by (simp add: selfdestruct_last_def layout_eval buffer_reads)
  have "validateCode handlers selfdestruct_last \<noteq> Inr True"
    using accepted_final_byte [OF a, of handlers]
    by (auto simp: selfdestruct_last_def byte_at_def)
  moreover have "checkOpcodes handlers selfdestruct_last \<noteq> Inl e" for e
    by (simp add: selfdestruct_last_def checkOpcodes_def initial_state_def scan_loop.simps
        loop_body_def push_block_def rjump_checks_def terminatingOpcodes_def buffer_reads
        split: outcome.splits)
  ultimately show ?thesis
    using a b by (cases "checkOpcodes handlers selfdestruct_last")
      (auto simp: validateCode_after_layout)
qed

subsection \<open>What the pass records is what the bytes say\<close>






subsection \<open>The length that lines 160-174 accept\<close>

text \<open>
  When control reaches the opcode pass, the buffer is one byte longer than the
  header and the sizes it declares: line 171 compares the offset just after the
  declared body with \<^verbatim>\<open>code.length - 1\<close>.
\<close>

lemma readUint16BE_u16_at:
  "readUint16BE code i = Inr v \<Longrightarrow> v = u16_at code i"
  by (auto simp: readUint16BE_def byte_at_def u16_at_def split: option.splits if_splits)

lemma type_sections_pos:
  "type_sections code n i p = Proceeds q \<Longrightarrow> q = p + 4 * (n - i)"
proof (induction code n i p rule: type_sections.induct)
  case (1 code n i p)
  show ?case
  proof (cases "i < n")
    case False
    with "1.prems" show ?thesis
      by (simp add: type_sections.simps [of code n i p])
  next
    case True
    with "1.prems" obtain inputs outputs maxStackHeight where
      a: "readUint8 code p = Inr inputs" "\<not> inputs > 0x7f"
      and b: "readUint8 code (p + 1) = Inr outputs" "\<not> outputs > 0x7f"
      and c: "readUint16BE code (p + 2) = Inr maxStackHeight" "\<not> maxStackHeight > 1023"
      and rec: "type_sections code n (i + 1) (p + 4) = Proceeds q"
      by (auto simp: type_sections.simps [of code n i p] split: sum.splits if_splits)
    from "1.IH" [OF True a b c rec] True show ?thesis
      by simp
  qed
qed

lemma code_sizes_sum:
  "code_sizes code n p sofar = Inr whole \<Longrightarrow> p = 9 + 2 * k \<Longrightarrow>
   whole = sofar + sum_list (map (\<lambda>i. u16_at code (9 + 2 * i)) [k ..< n])"
proof (induction code n p sofar arbitrary: k rule: code_sizes.induct)
  case (1 code n p sofar)
  show ?case
  proof (cases "p < 9 + 2 * n")
    case False
    then have "code_sizes code n p sofar = Inr sofar"
      by (simp add: code_sizes.simps [of code n p sofar])
    with False "1.prems" show ?thesis
      by simp
  next
    case True
    with "1.prems"(1) obtain v where rd: "readUint16BE code p = Inr v"
      and rec: "code_sizes code n (p + 2) (sofar + v) = Inr whole"
      by (auto simp: code_sizes.simps [of code n p sofar] split: sum.splits)
    from "1.prems"(2) have "p + 2 = 9 + 2 * Suc k" by simp
    from "1.IH" [OF True rd rec this]
    have "whole = sofar + v + sum_list (map (\<lambda>i. u16_at code (9 + 2 * i)) [Suc k ..< n])"
      by simp
    moreover from True "1.prems"(2) have "k < n" by simp
    moreover from rd "1.prems"(2) have "v = u16_at code (9 + 2 * k)"
      by (simp add: readUint16BE_u16_at)
    ultimately show ?thesis
      by (simp add: upt_conv_Cons)
  qed
qed

lemma layout_fields:
  assumes "validateCode_layout code = Inr True"
  shows "\<exists>q whole.
           type_sections code (type_section_size code div 4) 0 (header_length code) = Proceeds q \<and>
           code_sizes code (num_code_sections code) 9 0 = Inr whole \<and>
           type_section_size code mod 4 = 0 \<and>
           int (q + whole + data_section_size code) = int (length code) - 1"
  using assms
  unfolding validateCode_layout_def Let_def type_section_size_def num_code_sections_def
    data_section_size_def header_length_def
  by (auto split: if_splits sum.splits outcome.splits dest!: readUint16BE_u16_at)

lemma accepted_body_length:
  assumes "validateCode_layout code = Inr True"
  shows "type_section_size code + sum_list (code_section_sizes code) + data_section_size code + 1
           = length code - header_length code \<and> header_length code < length code"
proof -
  from layout_fields [OF assms] obtain q whole where
    ts: "type_sections code (type_section_size code div 4) 0 (header_length code) = Proceeds q"
    and cs: "code_sizes code (num_code_sections code) 9 0 = Inr whole"
    and m: "type_section_size code mod 4 = 0"
    and len: "int (q + whole + data_section_size code) = int (length code) - 1"
    by (elim exE conjE)
  from type_sections_pos [OF ts] m have "q = header_length code + type_section_size code"
    by auto
  moreover from code_sizes_sum [OF cs, of 0] have "whole = sum_list (code_section_sizes code)"
    by (simp add: code_section_sizes_def)
  ultimately show ?thesis using len by auto
qed

subsection \<open>Where \<^verbatim>\<open>validateCode\<close> can throw\<close>

text \<open>
  The reads of the opcode pass are guarded: \<^verbatim>\<open>readInt16BE\<close> is called only with
  two bytes left. So are the reads of the header. An exception that leaves
  \<^verbatim>\<open>validateCode\<close> comes from the loop over the type section.
\<close>

lemma readInt16BE_in_range:
  "offset + 1 < length code \<Longrightarrow> readInt16BE code offset \<noteq> Inl e"
  by (simp add: readInt16BE_def byte_at_def Let_def)

lemma jumptable_never_throws:
  "finalPos < length code \<Longrightarrow> even (finalPos - p) \<Longrightarrow>
   jumptable code finalPos p rj \<noteq> Throws e"
proof (induction code finalPos p rj rule: jumptable.induct)
  case (1 code finalPos p rj)
  show ?case
  proof (cases "p < finalPos")
    case False
    then show ?thesis
      by (simp add: jumptable.simps [of code finalPos p rj])
  next
    case True
    from "1.prems"(2) obtain k where k: "finalPos - p = 2 * k"
      by (blast elim: evenE)
    with True have "0 < k"
      by (cases k) auto
    with k have "finalPos - (p + 2) = 2 * (k - 1)" and "p + 1 < finalPos"
      by arith+
    then have next_even: "even (finalPos - (p + 2))" and "p + 1 < finalPos"
      by (simp_all only: even_mult_iff even_numeral simp_thms)
    with "1.prems"(1) have rd: "readInt16BE code p \<noteq> Inl e'" for e'
      by (simp add: readInt16BE_in_range)
    show ?thesis
    proof (cases "readInt16BE code p")
      case (Inl e')
      with rd [of e'] show ?thesis by blast
    next
      case (Inr off)
      show ?thesis
      proof (cases "off + int finalPos > int (length code) - 1 \<or> off + int finalPos < 0")
        case bad: True
        with True Inr show ?thesis
          by (simp add: jumptable.simps [of code finalPos p rj] Let_def)
      next
        case ok: False
        from "1.IH" [OF True Inr refl ok "1.prems"(1) next_even] True Inr ok
        show ?thesis
          by (simp add: jumptable.simps [of code finalPos p rj] Let_def)
      qed
    qed
  qed
qed

lemma rjump_checks_never_throws:
  "rjump_checks code opcode st \<noteq> Throw e"
proof -
  have a: "readInt16BE code (pos st) \<noteq> Inl e'"
    if "\<not> int (pos st) + 2 > int (length code) - 1" for e'
    using that by (intro readInt16BE_in_range) simp
  have b: "jumptable code (pos st + 1 + tableSize * 2) (pos st + 1) (rjumpdests st) \<noteq> Throws e'"
    if "\<not> int (pos st) + int (tableSize * 2) + 1 > int (length code) - 1" for tableSize e'
    using that by (intro jumptable_never_throws) auto
  show ?thesis
    using a b
    by (auto simp: rjump_checks_def Let_def split: sum.splits option.splits outcome.splits)
qed

lemma loop_body_never_throws:
  "loop_body handlers code st \<noteq> Throw e"
  by (auto simp: loop_body_def push_block_def Let_def rjump_checks_never_throws
      split: option.splits outcome.splits)

lemma scan_loop_never_throws:
  "scan_loop handlers code st \<noteq> Throws e"
proof (induction handlers code st rule: scan_loop.induct)
  case (1 handlers code st)
  show ?case
  proof (cases "pos st < length code")
    case False
    then show ?thesis
      by (simp add: scan_loop.simps [of handlers code st])
  next
    case True
    show ?thesis
    proof (cases "loop_body handlers code st")
      case (Throw e')
      then show ?thesis
        using loop_body_never_throws by blast
    next
      case ReturnFalse
      with True show ?thesis
        by (simp add: scan_loop.simps [of handlers code st])
    next
      case (Continue st1)
      with True "1.IH" [OF True Continue] show ?thesis
        by (simp add: scan_loop.simps [of handlers code st])
    next
      case (Break st1)
      with True show ?thesis
        by (simp add: scan_loop.simps [of handlers code st])
    qed
  qed
qed

lemma checkOpcodes_never_throws:
  "checkOpcodes handlers code \<noteq> Inl e"
  using scan_loop_never_throws [of handlers code initial_state]
  by (auto simp: checkOpcodes_def split: outcome.splits option.splits)

lemma readUint16BE_in_range:
  "offset + 1 < length code \<Longrightarrow> readUint16BE code offset = Inr (u16_at code offset)"
  by (simp add: readUint16BE_def byte_at_def u16_at_def)

lemma code_sizes_never_throws:
  "p = 9 + 2 * k \<Longrightarrow> 9 + 2 * n \<le> length code \<Longrightarrow> code_sizes code n p sofar \<noteq> Inl e"
proof (induction code n p sofar arbitrary: k rule: code_sizes.induct)
  case (1 code n p sofar)
  show ?case
  proof (cases "p < 9 + 2 * n")
    case False
    then show ?thesis
      by (simp add: code_sizes.simps [of code n p sofar])
  next
    case True
    with "1.prems" have "p + 1 < length code"
      by arith
    then have rd: "readUint16BE code p = Inr (u16_at code p)"
      by (rule readUint16BE_in_range)
    from "1.prems"(1) have "p + 2 = 9 + 2 * Suc k"
      by simp
    from "1.IH" [OF True rd this "1.prems"(2)] True rd show ?thesis
      by (simp add: code_sizes.simps [of code n p sofar])
  qed
qed

lemma layout_throws_in_type_section:
  assumes "validateCode_layout code = Inl e"
  shows "type_sections code (type_section_size code div 4) 0 (header_length code) = Throws e"
proof -
  have cs: "code_sizes code n 9 0 \<noteq> Inl e'" if "9 + 2 * n \<le> length code" for n e'
    using code_sizes_never_throws [of 9 0 n code 0 e'] that by simp
  have rd: "readUint16BE code i \<noteq> Inl e'" if "i + 1 < length code" for i e'
    using readUint16BE_in_range [OF that] by simp
  have at: "readUint16BE code i = Inr v \<Longrightarrow> v = u16_at code i" for i v
    by (rule readUint16BE_u16_at)
  from assms show ?thesis
    unfolding validateCode_layout_def Let_def type_section_size_def num_code_sections_def
      header_length_def
    by (auto split: if_splits sum.splits outcome.splits dest!: at simp: rd cs)
qed

lemma validateCode_throws_in_type_section:
  assumes "validateCode handlers code = Inl e"
  shows "isEOFCode code \<and>
         type_sections code (type_section_size code div 4) 0 (header_length code) = Throws e"
proof -
  from assms have eof: "isEOFCode code"
    by (auto simp: validateCode_def split: if_splits)
  with assms have "validateCode_layout code = Inl e"
    by (auto simp: validateCode_def checkOpcodes_never_throws split: sum.splits if_splits)
  with eof show ?thesis
    by (simp add: layout_throws_in_type_section)
qed

section \<open>The claims\<close>

text \<open>
  C1. The specification's minimum EOF1 container is accepted by \<^verbatim>\<open>validateCode\<close>.
  The code returns false on it, whatever the opcode table: its version byte is
  \<open>1\<close>, and line 55 returns false for every version other than \<open>0\<close>.
\<close>

theorem minimum_eof1_is_rejected:
  "validateCode handlers minimum_eof1 = Inr False"
  by (simp add: validateCode_def magic_eval minimum_eof1_def validateCode_layout_def
      buffer_reads)

text \<open>
  C2. For accepted EOF input the declared body length equals the length of the
  buffer minus the header length. The code accepts this 27-byte container (with
  every byte a defined opcode), whose header is 15 bytes and declares
  \<open>4 + 7 + 0 = 11\<close> bytes of body: one less than the 12 bytes that follow the
  header. Lemma \<open>accepted_body_length\<close> shows the same of every buffer that
  reaches the opcode pass.
\<close>

theorem body_length_off_by_one:
  "isEOFCode push_rjump \<and> validateCode every_byte_defined push_rjump = Inr True \<and>
   type_section_size push_rjump + sum_list (code_section_sizes push_rjump)
     + data_section_size push_rjump = 11 \<and>
   length push_rjump - header_length push_rjump = 12"
  by (simp add: validateCode_def magic_eval push_rjump_def layout_eval pass_eval buffer_reads
      header_eval)

text \<open>
  C3. An input that begins with the magic and whose third byte is not \<open>0x01\<close> is
  rejected. The code accepts this container with version byte \<open>0\<close>, for the table
  in which every byte is defined.
\<close>

theorem version0_is_accepted:
  "isEOFCode version0_one_extra \<and> byte_at version0_one_extra 2 = Some 0 \<and>
   validateCode every_byte_defined version0_one_extra = Inr True"
  by (simp add: validateCode_def magic_eval version0_one_extra_def layout_eval pass_eval
      buffer_reads)

text \<open>
  C4. \<^verbatim>\<open>validateCode\<close> never propagates an exception; in particular the reads of
  the type section stay inside the buffer. On a buffer that ends inside the type
  section, \<^verbatim>\<open>readUint8\<close> throws a \<^verbatim>\<open>RangeError\<close> out of \<^verbatim>\<open>validateCode\<close>,
  whatever the opcode table: at offset 15 of the 15-byte header, and at offset 22
  of the 22-byte container.
\<close>

theorem type_section_read_throws:
  "validateCode handlers header_only = Inl RangeError \<and>
   validateCode handlers second_entry_cut = Inl RangeError"
  by (simp add: validateCode_def magic_eval header_only_def second_entry_cut_def layout_eval
      buffer_reads)




text \<open>
  C6. In accepted EOF input the last byte of the container is one of \<open>0x00\<close>,
  \<open>0xF3\<close>, \<open>0xFD\<close>, \<open>0xFE\<close>, \<open>0xFF\<close>, and no byte that the loop reads as an
  opcode before the last byte is \<open>0xFF\<close>. (By \<open>accepted_final_byte\<close> the last
  byte is read as an opcode as well, so it is not \<open>0xFF\<close> either.)
\<close>

theorem terminating_byte_and_selfdestruct:
  assumes "isEOFCode code" and "validateCode handlers code = Inr True"
  shows "(\<exists>final. byte_at code (length code - 1) = Some final \<and>
             final \<in> {0x00, 0xf3, 0xfd, 0xfe, 0xff}) \<and>
         (\<forall>n st. turns handlers code n initial_state = Some st \<and> pos st < length code - 1
            \<longrightarrow> byte_at code (pos st) \<noteq> Some 0xff)"
proof -
  from assms have ok: "checkOpcodes handlers code = Inr True"
    using validateCode_accepted by blast
  then have a: "\<exists>final. byte_at code (length code - 1) = Some final \<and>
             final \<in> {0x00, 0xf3, 0xfd, 0xfe, 0xff}"
    by (auto simp: checkOpcodes_def terminatingOpcodes_def
        split: outcome.splits option.splits if_splits)
  have b: "byte_at code (pos st) \<noteq> Some 0xff"
    if t: "turns handlers code n initial_state = Some st" and p: "pos st < length code - 1"
    for n st
  proof
    assume "byte_at code (pos st) = Some 0xff"
    then have "loop_body handlers code st = ReturnFalse"
      by (simp add: loop_body_def selfdestruct_not_allowed)
    moreover from p have "pos st < length code" by simp
    ultimately have "checkOpcodes handlers code = Inr False"
      using turn_ReturnFalse_rejects [OF t] by blast
    with ok show False by simp
  qed
  from a b show ?thesis by blast
qed

theorem terminating_byte_witness:
  "isEOFCode push_rjump \<and> validateCode every_byte_defined push_rjump = Inr True \<and>
   byte_at push_rjump (length push_rjump - 1) = Some 0 \<and>
   turns every_byte_defined push_rjump 19 initial_state
     = Some \<lparr>pos = 19, rjumpdests = {}, immediates = {}\<rparr> \<and>
   19 < length push_rjump - 1 \<and>
   byte_at push_rjump 19 = Some 0x60"
proof -
  have a: "isEOFCode push_rjump"
    by (simp add: magic_eval push_rjump_def)
  have b: "validateCode every_byte_defined push_rjump = Inr True"
    by (simp add: validateCode_def magic_eval push_rjump_def layout_eval pass_eval
        buffer_reads)
  have c: "turns every_byte_defined push_rjump 19 initial_state
     = Some \<lparr>pos = 19, rjumpdests = {}, immediates = {}\<rparr>"
    by (simp add: push_rjump_def pass_eval buffer_reads turns_numeral)
  have d: "byte_at push_rjump (length push_rjump - 1) = Some 0"
    "byte_at push_rjump 19 = Some 0x60" "19 < length push_rjump - 1"
    by (simp_all add: push_rjump_def byte_at_def)
  from terminating_byte_and_selfdestruct [OF a b] c d
  have "byte_at push_rjump 19 \<noteq> Some 0xff"
    by auto
  with a b c d show ?thesis
    by simp
qed

text \<open>
  C7. Legacy passthrough: an input whose first two bytes are not \<open>EF 00\<close> (an input
  shorter than two bytes included) is accepted.
\<close>

theorem legacy_passthrough:
  "\<not> isEOFCode code \<Longrightarrow> validateCode handlers code = Inr True"
  by (simp add: validateCode_def)

theorem legacy_passthrough_witness:
  "\<not> isEOFCode legacy_return \<and> validateCode {} legacy_return = Inr True \<and>
   \<not> isEOFCode [0xEF] \<and> validateCode {} [0xEF] = Inr True \<and>
   \<not> isEOFCode [] \<and> validateCode {} [] = Inr True"
proof -
  have a: "\<not> isEOFCode legacy_return"
    by (simp add: isEOFCode_def MAGIC_def legacy_return_def)
  have b: "\<not> isEOFCode [0xEF]"
    by (simp add: isEOFCode_def MAGIC_def)
  have c: "\<not> isEOFCode []"
    by (simp add: isEOFCode_def MAGIC_def)
  from a b c legacy_passthrough [OF a, of "{}"] legacy_passthrough [OF b, of "{}"]
    legacy_passthrough [OF c, of "{}"]
  show ?thesis by simp
qed

text \<open>
  C8, as stated: \<^verbatim>\<open>isEOFCode(code)\<close> holds if and only if
  \<^verbatim>\<open>getEOFVersion(code)\<close> equals \<^verbatim>\<open>code[2]\<close>. It fails from right to left on
  legacy code whose third byte is \<open>0\<close>.
\<close>

theorem version_probe_counterexample:
  "\<not> (isEOFCode legacy_zero_third \<longleftrightarrow>
        getEOFVersion legacy_zero_third = byte_at legacy_zero_third 2)"
  by (simp add: getEOFVersion_def isEOFCode_def MAGIC_def legacy_zero_third_def byte_at_def)

text \<open>
  C8, amended: if \<^verbatim>\<open>isEOFCode(code)\<close> holds then \<^verbatim>\<open>getEOFVersion(code)\<close> equals
  \<^verbatim>\<open>code[2]\<close> (both \<^verbatim>\<open>undefined\<close> for the two bytes of the magic alone), and for
  every input that does not begin with the magic \<^verbatim>\<open>getEOFVersion\<close> returns \<open>0\<close>.
\<close>

theorem version_probe:
  "(isEOFCode code \<longrightarrow> getEOFVersion code = byte_at code 2) \<and>
   (\<not> isEOFCode code \<longrightarrow> getEOFVersion code = Some 0)"
  by (simp add: getEOFVersion_def internal_getEOFVersion_def)

theorem version_probe_witness:
  "isEOFCode minimum_eof1 \<and> getEOFVersion minimum_eof1 = Some 1 \<and>
   byte_at minimum_eof1 2 = Some 1 \<and>
   isEOFCode [0xEF, 0x00] \<and> getEOFVersion [0xEF, 0x00] = None \<and>
   \<not> isEOFCode legacy_return \<and> getEOFVersion legacy_return = Some 0"
proof -
  have a: "isEOFCode minimum_eof1" "byte_at minimum_eof1 2 = Some 1"
    by (simp_all add: isEOFCode_def MAGIC_def minimum_eof1_def byte_at_def)
  have b: "isEOFCode [0xEF, 0x00]" "byte_at [0xEF, 0x00] 2 = None"
    by (simp_all add: isEOFCode_def MAGIC_def byte_at_def)
  have c: "\<not> isEOFCode legacy_return"
    by (simp add: isEOFCode_def MAGIC_def legacy_return_def)
  from a b c version_probe [of minimum_eof1] version_probe [of "[0xEF, 0x00]"]
    version_probe [of legacy_return]
  show ?thesis by simp
qed

text \<open>
  C9. The opcode pass starts at offset 0, so EOF input is accepted only if \<open>0xEF\<close>
  is an allowed opcode, which it is exactly when the table defines it; with a table
  that does not define \<open>0xEF\<close> no input that begins with the magic is accepted:
  \<^verbatim>\<open>validateCode\<close> returns false (or throws, where the buffer ends inside the
  type section).
\<close>

theorem magic_byte_must_be_opcode:
  "(isEOFCode code \<and> validateCode handlers code = Inr True \<longrightarrow>
      0xEF \<in> opcodes handlers \<and> 0xEF \<in> handlers) \<and>
   (isEOFCode code \<and> 0xEF \<notin> handlers \<longrightarrow>
      validateCode handlers code = Inr False \<or> validateCode handlers code = Inl RangeError)"
proof -
  have key: "0xEF \<in> opcodes handlers"
    if eof: "isEOFCode code" and ok: "checkOpcodes handlers code = Inr True"
  proof (rule ccontr)
    assume no: "0xEF \<notin> opcodes handlers"
    from eof obtain rest where code: "code = 0xEF # 0x00 # rest"
      by (auto simp: isEOFCode_iff)
    have "loop_body handlers code initial_state = ReturnFalse"
      using no by (simp add: loop_body_def initial_state_def byte_at_def code)
    moreover have "pos initial_state < length code"
      by (simp add: initial_state_def code)
    moreover have "turns handlers code 0 initial_state = Some initial_state"
      by simp
    ultimately have "checkOpcodes handlers code = Inr False"
      using turn_ReturnFalse_rejects by blast
    with ok show False by simp
  qed
  show ?thesis
  proof (intro conjI impI)
    assume a: "isEOFCode code \<and> validateCode handlers code = Inr True"
    then have "checkOpcodes handlers code = Inr True"
      using validateCode_accepted by blast
    with a show "0xEF \<in> opcodes handlers" using key by blast
    then show "0xEF \<in> handlers" by (simp add: opcodes_def)
  next
    assume a: "isEOFCode code \<and> 0xEF \<notin> handlers"
    then have "0xEF \<notin> opcodes handlers" by (simp add: opcodes_def)
    with a key have "checkOpcodes handlers code \<noteq> Inr True" by blast
    with a have "validateCode handlers code \<noteq> Inr True"
      using validateCode_cases by blast
    then show "validateCode handlers code = Inr False \<or> validateCode handlers code = Inl RangeError"
      by (cases "validateCode handlers code") (auto intro: error.exhaust)
  qed
qed

theorem magic_byte_witness:
  "isEOFCode push_rjump \<and> validateCode every_byte_defined push_rjump = Inr True \<and>
   0xEF \<in> opcodes every_byte_defined \<and> 0xEF \<in> every_byte_defined \<and>
   0xEF \<notin> below_ef_defined \<and> validateCode below_ef_defined push_rjump = Inr False \<and>
   isEOFCode header_only \<and> validateCode below_ef_defined header_only = Inl RangeError"
proof -
  have a: "isEOFCode push_rjump" "isEOFCode header_only"
    by (simp_all add: magic_eval push_rjump_def header_only_def)
  have b: "validateCode every_byte_defined push_rjump = Inr True"
    by (simp add: validateCode_def magic_eval push_rjump_def layout_eval pass_eval
        buffer_reads)
  have c: "0xEF \<notin> below_ef_defined"
    by (simp add: below_ef_defined_def)
  have d: "validateCode below_ef_defined push_rjump \<noteq> Inl RangeError"
    by (simp add: validateCode_def magic_eval push_rjump_def layout_eval pass_eval
        buffer_reads)
  have e: "validateCode below_ef_defined header_only = Inl RangeError"
    by (simp add: validateCode_def magic_eval header_only_def layout_eval buffer_reads)
  from magic_byte_must_be_opcode [of push_rjump every_byte_defined]
    magic_byte_must_be_opcode [of push_rjump below_ef_defined] a b c d e
  show ?thesis by simp
qed

text \<open>
  C10. The bounds checks on immediates are strict by one byte: when the opcode pass
  (reached after lines 50-174 have passed) comes to a \<^verbatim>\<open>PUSH\<close> whose operand, an
  \<^verbatim>\<open>RJUMP\<close> or \<^verbatim>\<open>RJUMPI\<close> whose two-byte offset, or an \<^verbatim>\<open>RJUMPV\<close> whose length
  byte and table end exactly at the last byte of the container, \<^verbatim>\<open>validateCode\<close>
  returns false.
\<close>

theorem immediate_at_end_is_rejected:
  assumes eof: "isEOFCode code" and layout: "validateCode_layout code = Inr True"
    and t: "turns handlers code n initial_state = Some st"
    and op: "byte_at code (pos st) = Some opcode"
    and ends: "(0x60 \<le> opcode \<and> opcode \<le> 0x7f \<and> pos st + 1 + (opcode - 0x5f) = length code) \<or>
               ((opcode = 0x5c \<or> opcode = 0x5d) \<and> pos st + 1 + 2 = length code) \<or>
               (opcode = 0x5e \<and> (\<exists>tableSize. byte_at code (pos st + 1) = Some tableSize \<and>
                  pos st + 1 + 1 + 2 * tableSize = length code))"
  shows "validateCode handlers code = Inr False"
proof -
  from op have p: "pos st < length code"
    by (simp add: byte_at_def split: if_splits)
  from ends have "loop_body handlers code st = ReturnFalse"
  proof (elim disjE conjE exE)
    assume push: "0x60 \<le> opcode" "opcode \<le> 0x7f"
      and "pos st + 1 + (opcode - 0x5f) = length code"
    then have "pos st + 1 + opcode - 0x5f = length code"
      by arith
    with push have "push_block code opcode (st\<lparr>pos := pos st + 1\<rparr>) = ReturnsFalse"
      by (simp add: push_block_def Let_def)
    then show ?thesis
      using op by (simp add: loop_body_def)
  next
    assume "opcode = 0x5c" "pos st + 1 + 2 = length code"
    then show ?thesis
      using op by (simp add: loop_body_def push_block_def rjump_checks_def Let_def)
  next
    assume "opcode = 0x5d" "pos st + 1 + 2 = length code"
    then show ?thesis
      using op by (simp add: loop_body_def push_block_def rjump_checks_def Let_def)
  next
    fix tableSize
    assume "opcode = 0x5e" "byte_at code (pos st + 1) = Some tableSize"
      "pos st + 1 + 1 + 2 * tableSize = length code"
    then show ?thesis
      using op by (simp add: loop_body_def push_block_def rjump_checks_def Let_def)
  qed
  with t p have "checkOpcodes handlers code = Inr False"
    using turn_ReturnFalse_rejects by blast
  with eof layout show ?thesis
    by (simp add: validateCode_after_layout)
qed

theorem immediate_at_end_witness:
  "validateCode every_byte_defined push_at_end = Inr False \<and>
   validateCode every_byte_defined rjump_at_end = Inr False \<and>
   validateCode every_byte_defined rjumpv_at_end = Inr False \<and>
   byte_at push_at_end 19 = Some 0x60 \<and> 19 + 1 + (0x60 - 0x5f) = length push_at_end \<and>
   byte_at rjump_at_end 19 = Some 0x5c \<and> 19 + 1 + 2 = length rjump_at_end \<and>
   byte_at rjumpv_at_end 19 = Some 0x5e \<and> byte_at rjumpv_at_end 20 = Some 1 \<and>
   19 + 1 + 1 + 2 * 1 = length rjumpv_at_end"
proof -
  let ?st = "\<lparr>pos = 19, rjumpdests = {}, immediates = {}\<rparr>"
  have eof: "isEOFCode push_at_end" "isEOFCode rjump_at_end" "isEOFCode rjumpv_at_end"
    by (simp_all add: magic_eval push_at_end_def rjump_at_end_def rjumpv_at_end_def)
  have layout: "validateCode_layout push_at_end = Inr True"
    "validateCode_layout rjump_at_end = Inr True"
    "validateCode_layout rjumpv_at_end = Inr True"
    by (simp_all add: push_at_end_def rjump_at_end_def rjumpv_at_end_def layout_eval
        buffer_reads)
  have t: "turns every_byte_defined push_at_end 19 initial_state = Some ?st"
    "turns every_byte_defined rjump_at_end 19 initial_state = Some ?st"
    "turns every_byte_defined rjumpv_at_end 19 initial_state = Some ?st"
    by (simp_all add: push_at_end_def rjump_at_end_def rjumpv_at_end_def pass_eval
        buffer_reads turns_numeral)
  have push: "byte_at push_at_end (pos ?st) = Some 0x60"
    "pos ?st + 1 + (0x60 - 0x5f) = length push_at_end"
    by (simp_all add: push_at_end_def byte_at_def)
  have rjump: "byte_at rjump_at_end (pos ?st) = Some 0x5c"
    "pos ?st + 1 + 2 = length rjump_at_end"
    by (simp_all add: rjump_at_end_def byte_at_def)
  have rjumpv: "byte_at rjumpv_at_end (pos ?st) = Some 0x5e"
    "byte_at rjumpv_at_end (pos ?st + 1) = Some 1"
    "pos ?st + 1 + 1 + 2 * 1 = length rjumpv_at_end"
    by (simp_all add: rjumpv_at_end_def byte_at_def)
  have "validateCode every_byte_defined push_at_end = Inr False"
    using immediate_at_end_is_rejected [OF eof(1) layout(1) t(1) push(1)] push(2)
    by simp
  moreover have "validateCode every_byte_defined rjump_at_end = Inr False"
    using immediate_at_end_is_rejected [OF eof(2) layout(2) t(2) rjump(1)] rjump(2)
    by simp
  moreover have "validateCode every_byte_defined rjumpv_at_end = Inr False"
    using immediate_at_end_is_rejected [OF eof(3) layout(3) t(3) rjumpv(1)] rjumpv(2,3)
    by simp
  ultimately show ?thesis
    using push rjump rjumpv by simp
qed

end
